theory Spec2Isabelle
  imports Complex_Main "HOL-Library.Word" "HOL-Library.Log_Nat"
begin

unbundle bit_operations_syntax

section \<open>Single-precision arithmetic\<close>

text \<open>
  The costing code computes in C++ \<^verbatim>\<open>float\<close>.  A value of that type is modelled as
  IEEE-754 binary32 data: \<open>Num s m\<close> is the finite number with sign bit \<open>s\<close> and
  magnitude \<open>m\<close> (so \<open>Num True 0\<close> is the negative zero), \<open>Infty s\<close> is the infinity
  with sign bit \<open>s\<close>, and \<open>NaN\<close> stands for every not-a-number.  Arithmetic rounds the
  exact rational result to the nearest binary32 magnitude, ties to even.
\<close>

datatype float = Num bool rat | Infty bool | NaN

text \<open>The binary exponent of a positive rational: \<open>2 powi expo m \<le> m < 2 powi (expo m + 1)\<close>.\<close>

definition expo :: "rat \<Rightarrow> int" where
  "expo m = (let (p, q) = quotient_of m; d = bitlen p - bitlen q
             in if 2 powi d \<le> m then d else d - 1)"

text \<open>
  The spacing of binary32 magnitudes around \<open>m\<close>: 24 significant bits in the normal
  range, the fixed spacing \<open>2 powi (- 149)\<close> below the smallest normal number.
\<close>

definition ulp :: "rat \<Rightarrow> rat" where
  "ulp m = (if m < 2 powi (- 126) then 2 powi (- 149) else 2 powi (expo m - 23))"

text \<open>Nearest integer, a tie going to the even neighbour.\<close>

definition rne :: "rat \<Rightarrow> int" where
  "rne t = (let n = \<lfloor>t\<rfloor>; r = t - of_int n
            in if r < 1 / 2 then n
               else if 1 / 2 < r then n + 1
               else if even n then n else n + 1)"

definition round_mag :: "rat \<Rightarrow> rat" where
  "round_mag m = of_int (rne (m / ulp m)) * ulp m"

definition FLT_MAX :: rat where
  "FLT_MAX = 2 ^ 128 - 2 ^ 104"

text \<open>Magnitudes from \<open>FLT_MAX\<close> plus half a spacing onwards round to infinity.\<close>

definition overflow_threshold :: rat where
  "overflow_threshold = 2 ^ 128 - 2 ^ 103"

definition fround :: "bool \<Rightarrow> rat \<Rightarrow> float" where
  "fround s m = (if overflow_threshold \<le> m then Infty s else Num s (round_mag m))"

text \<open>A decimal literal such as \<^verbatim>\<open>0.9f\<close> denotes the binary32 value nearest to it.\<close>

definition float_of_rat :: "rat \<Rightarrow> float" where
  "float_of_rat r = fround (r < 0) \<bar>r\<bar>"

text \<open>The binary32 numbers proper: magnitudes on the grid, up to \<open>FLT_MAX\<close>.\<close>

definition is_int :: "rat \<Rightarrow> bool" where
  "is_int t = (of_int \<lfloor>t\<rfloor> = t)"

fun is_float :: "float \<Rightarrow> bool" where
  "is_float (Num s m) = (0 \<le> m \<and> m \<le> FLT_MAX \<and> is_int (m / ulp m))"
| "is_float (Infty s) = True"
| "is_float NaN = True"

text \<open>Multiplication and division (\<^verbatim>\<open>*\<close> and \<^verbatim>\<open>/\<close> on \<^verbatim>\<open>float\<close>).\<close>

fun fmul :: "float \<Rightarrow> float \<Rightarrow> float" where
  "fmul (Num s a) (Num t b) = fround (s \<noteq> t) (a * b)"
| "fmul (Num s a) (Infty t) = (if a = 0 then NaN else Infty (s \<noteq> t))"
| "fmul (Infty s) (Num t b) = (if b = 0 then NaN else Infty (s \<noteq> t))"
| "fmul (Infty s) (Infty t) = Infty (s \<noteq> t)"
| "fmul NaN _ = NaN"
| "fmul _ NaN = NaN"

fun fdiv :: "float \<Rightarrow> float \<Rightarrow> float" where
  "fdiv (Num s a) (Num t b) =
     (if b = 0 then (if a = 0 then NaN else Infty (s \<noteq> t))
      else fround (s \<noteq> t) (a / b))"
| "fdiv (Num s a) (Infty t) = Num (s \<noteq> t) 0"
| "fdiv (Infty s) (Num t b) = Infty (s \<noteq> t)"
| "fdiv (Infty s) (Infty t) = NaN"
| "fdiv NaN _ = NaN"
| "fdiv _ NaN = NaN"

text \<open>
  The comparisons \<^verbatim>\<open><\<close>, \<^verbatim>\<open><=\<close> and \<^verbatim>\<open>>\<close>: false as soon as one side is a NaN, and
  the two zeros compare equal.
\<close>

definition sval :: "bool \<Rightarrow> rat \<Rightarrow> rat" where
  "sval s m = (if s then - m else m)"

fun flt :: "float \<Rightarrow> float \<Rightarrow> bool" where
  "flt (Num s a) (Num t b) = (sval s a < sval t b)"
| "flt (Num s a) (Infty t) = (\<not> t)"
| "flt (Infty s) (Num t b) = s"
| "flt (Infty s) (Infty t) = (s \<and> \<not> t)"
| "flt NaN _ = False"
| "flt _ NaN = False"

fun fle :: "float \<Rightarrow> float \<Rightarrow> bool" where
  "fle (Num s a) (Num t b) = (sval s a \<le> sval t b)"
| "fle (Num s a) (Infty t) = (\<not> t)"
| "fle (Infty s) (Num t b) = s"
| "fle (Infty s) (Infty t) = (s \<or> \<not> t)"
| "fle NaN _ = False"
| "fle _ NaN = False"

definition fgt :: "float \<Rightarrow> float \<Rightarrow> bool" where
  "fgt x y = flt y x"

text \<open>The values that are at least zero: no NaN, no negative number, but both zeros.\<close>

fun nonneg :: "float \<Rightarrow> bool" where
  "nonneg (Num s m) = (0 \<le> m \<and> (s \<longrightarrow> m = 0))"
| "nonneg (Infty s) = (\<not> s)"
| "nonneg NaN = False"

section \<open>The graph attributes the costing reads\<close>

text \<open>
  Modelled from the spec: the enumeration \<^verbatim>\<open>baldr::Use\<close> is declared outside the files at
  hand.  The specification names the use classifications road, footway, steps and
  ferry and leaves the list open; \<open>kOtherUse\<close> stands for the remaining ones.  The
  costing only ever compares a use with \<open>kFootway\<close>.
\<close>

datatype Use = kRoad | kFootway | kSteps | kFerry | kOtherUse nat

text \<open>
  Modelled from the spec: the classes \<^verbatim>\<open>baldr::DirectedEdge\<close> and \<^verbatim>\<open>baldr::NodeInfo\<close> are
  declared outside the files at hand.  The records hold the accessors that
  \<^verbatim>\<open>pedestriancost.cc\<close> calls, typed as the specification describes the attributes: an
  access bitmask, flags, a use classification and a length in meters.  The access
  mask is an unsigned integer of a width that is not shown; it is read as a natural
  number, on which \<^verbatim>\<open>&\<close> is bitwise conjunction.  \<open>length_e\<close> is the value of
  \<^verbatim>\<open>edge->length()\<close> as it enters the \<^verbatim>\<open>float\<close> arithmetic of \<^verbatim>\<open>Get\<close> and \<^verbatim>\<open>Seconds\<close>; were the
  accessor to return an integer, this is the integer converted to \<^verbatim>\<open>float\<close>.
\<close>

record DirectedEdge =
  forwardaccess :: nat
  trans_up :: bool
  trans_down :: bool
  not_thru :: bool
  use :: Use
  length_e :: float


text \<open>
  A \<^verbatim>\<open>boost::property_tree::ptree\<close>: a data string and an ordered list of named
  subtrees.
\<close>

datatype ptree = Ptree string "(string \<times> ptree) list"

section \<open>The pedestrian costing\<close>

text \<open>
  The members of the class and of its base class \<^verbatim>\<open>DynamicCost\<close> (in the source they
  carry a trailing underscore).  \<^verbatim>\<open>not_thru_distance_\<close> is inherited: \<^verbatim>\<open>Allowed\<close> compares
  it with the \<^verbatim>\<open>float\<close> distance to the destination, and \<^verbatim>\<open>pedestriancost.cc\<close> never
  assigns it.  The base class is declared outside the files at hand; of its members
  only this one is used.
\<close>

record DynamicCost =
  not_thru_distance :: float

record PedestrianCost = DynamicCost +
  walkingspeed :: float
  favorwalkways :: float

text \<open>
  The constructor.  Its initialiser list first runs the base-class constructor
  \<^verbatim>\<open>DynamicCost(config)\<close>, which is defined outside the files at hand and is therefore a
  parameter here; whatever it throws propagates (\<open>Inl\<close>).  The constructor then sets
  both members to literals; its body is empty and never looks at \<open>config\<close>.
\<close>

definition PedestrianCost_ctor ::
  "(ptree \<Rightarrow> 'e + DynamicCost) \<Rightarrow> ptree \<Rightarrow> 'e + PedestrianCost" where
  "PedestrianCost_ctor DynamicCost_ctor config =
     (case DynamicCost_ctor config of
        Inl e \<Rightarrow> Inl e
      | Inr base \<Rightarrow>
          Inr \<lparr>not_thru_distance = not_thru_distance base,
               walkingspeed = float_of_rat (51 / 10),
               favorwalkways = float_of_rat (9 / 10)\<rparr>)"

definition CreatePedestrianCost ::
  "(ptree \<Rightarrow> 'e + DynamicCost) \<Rightarrow> ptree \<Rightarrow> 'e + PedestrianCost" where
  "CreatePedestrianCost DynamicCost_ctor config = PedestrianCost_ctor DynamicCost_ctor config"

text \<open>
  The operations.  The constant \<^verbatim>\<open>kPedestrianAccess\<close> is declared outside the files at
  hand, so every operation that tests it takes it as its first argument.
\<close>

definition Allowed ::
  "nat \<Rightarrow> PedestrianCost \<Rightarrow> DirectedEdge \<Rightarrow> 32 word \<Rightarrow> bool \<Rightarrow> float \<Rightarrow> bool" where
  "Allowed kPedestrianAccess pc edge restriction uturn dist2dest =
     (forwardaccess edge AND kPedestrianAccess \<noteq> 0 \<and> \<not> uturn \<and>
      \<not> (not_thru edge \<and> fgt dist2dest (not_thru_distance pc)))"


definition Get :: "PedestrianCost \<Rightarrow> DirectedEdge \<Rightarrow> float" where
  "Get pc edge =
     (if use edge = kFootway then fmul (length_e edge) (favorwalkways pc)
      else length_e edge)"

definition Seconds :: "PedestrianCost \<Rightarrow> DirectedEdge \<Rightarrow> float" where
  "Seconds pc edge = fdiv (fmul (length_e edge) (float_of_rat (36 / 10))) (walkingspeed pc)"

definition AStarCostFactor :: "PedestrianCost \<Rightarrow> float" where
  "AStarCostFactor pc =
     (if flt (favorwalkways pc) (float_of_rat 1) then favorwalkways pc else float_of_rat 1)"

definition UnitSize :: "PedestrianCost \<Rightarrow> float" where
  "UnitSize pc = float_of_rat 2"

definition GetFilter :: "nat \<Rightarrow> PedestrianCost \<Rightarrow> DirectedEdge \<Rightarrow> bool" where
  "GetFilter kPedestrianAccess pc =
     (\<lambda>edge. trans_up edge \<or> trans_down edge \<or>
             \<not> (forwardaccess edge AND kPedestrianAccess \<noteq> 0))"

section \<open>Sample data\<close>

text \<open>
  A base-class constructor that sets the not-through distance to a given value and
  never fails, an empty configuration and one that asks for a negative walking
  speed, the strategy built on a not-through distance of 5000, and a not-through
  edge of a given use and length that is open to the modes of the three lowest
  access bits.
\<close>

definition DynamicCost_fixed :: "float \<Rightarrow> ptree \<Rightarrow> unit + DynamicCost" where
  "DynamicCost_fixed d config = Inr \<lparr>not_thru_distance = d\<rparr>"

definition config_empty :: ptree where
  "config_empty = Ptree [] []"

definition config_negative_speed :: ptree where
  "config_negative_speed = Ptree [] [(''walking_speed'', Ptree ''-1.0'' [])]"

definition pc5000 :: PedestrianCost where
  "pc5000 = \<lparr>not_thru_distance = Num False 5000,
            walkingspeed = float_of_rat (51 / 10),
            favorwalkways = float_of_rat (9 / 10)\<rparr>"

definition edge_sample :: "Use \<Rightarrow> rat \<Rightarrow> DirectedEdge" where
  "edge_sample u len =
     \<lparr>forwardaccess = 7, trans_up = False, trans_down = False, not_thru = True,
      use = u, length_e = Num False len\<rparr>"




section \<open>Admission of edges\<close>

lemma or_and_absorb_nat: "((a::nat) OR k) AND k = k"
  by (auto simp: bit_eq_iff bit_simps)

lemma fle_not_fgt: "fle x y \<Longrightarrow> \<not> fgt x y"
  by (cases x; cases y) (auto simp: fgt_def)

lemma not_fgt_self: "\<not> fgt x x"
  by (cases x) (auto simp: fgt_def)

text \<open>
  Claim C4.  With the U-turn flag set, \<open>Allowed\<close> is false: for every edge, every
  restriction mask and every distance to the destination.
\<close>

theorem Allowed_uturn_rejected:
  "\<not> Allowed kPedestrianAccess pc edge restriction True dist2dest"
  by (simp add: Allowed_def)

theorem Allowed_uturn_rejected_witness:
  "\<not> Allowed 2 pc5000 (edge_sample kFootway 50) 0 True (Num False 10)"
  using Allowed_uturn_rejected [of 2 pc5000 "edge_sample kFootway 50" 0 "Num False 10"]
  by simp

text \<open>
  Claim C7.  The restriction mask has no influence: for every edge, U-turn flag and
  distance, \<open>Allowed\<close> gives the same answer under any two masks.
\<close>

theorem Allowed_ignores_restriction:
  "Allowed kPedestrianAccess pc edge r1 uturn dist2dest =
   Allowed kPedestrianAccess pc edge r2 uturn dist2dest"
  by (simp add: Allowed_def)

theorem Allowed_ignores_restriction_witness:
  "Allowed 2 pc5000 (edge_sample kFootway 50) 0 False (Num False 10) =
   Allowed 2 pc5000 (edge_sample kFootway 50) 4294967295 False (Num False 10)"
  using Allowed_ignores_restriction
    [of 2 pc5000 "edge_sample kFootway 50" 0 False "Num False 10" 4294967295]
  by simp

text \<open>
  Claim C5.  \<open>Allowed\<close> is monotone in the pedestrian bit of the forward access mask:
  an edge whose mask lacks the bit is rejected whatever the restriction mask, the
  U-turn flag and the distance are; and if an edge is allowed, it is still allowed
  after the bit has been switched on with every other attribute and argument
  unchanged, so switching the bit on never turns an admission into a rejection.
\<close>

theorem Allowed_access_monotone:
  "(forwardaccess edge AND kPedestrianAccess = 0 \<longrightarrow>
      \<not> Allowed kPedestrianAccess pc edge restriction uturn dist2dest) \<and>
   (Allowed kPedestrianAccess pc edge restriction uturn dist2dest \<longrightarrow>
      Allowed kPedestrianAccess pc
        (edge\<lparr>forwardaccess := forwardaccess edge OR kPedestrianAccess\<rparr>)
        restriction uturn dist2dest)"
proof (intro conjI impI)
  assume "forwardaccess edge AND kPedestrianAccess = 0"
  then show "\<not> Allowed kPedestrianAccess pc edge restriction uturn dist2dest"
    by (simp add: Allowed_def)
next
  assume a: "Allowed kPedestrianAccess pc edge restriction uturn dist2dest"
  have "kPedestrianAccess \<noteq> 0"
  proof
    assume "kPedestrianAccess = 0"
    with a show False by (simp add: Allowed_def)
  qed
  with a show "Allowed kPedestrianAccess pc
      (edge\<lparr>forwardaccess := forwardaccess edge OR kPedestrianAccess\<rparr>)
      restriction uturn dist2dest"
    by (simp add: Allowed_def or_and_absorb_nat)
qed

theorem Allowed_access_monotone_witness:
  "forwardaccess (edge_sample kRoad 50\<lparr>forwardaccess := 5\<rparr>) AND 2 = 0 \<and>
   \<not> Allowed 2 pc5000 (edge_sample kRoad 50\<lparr>forwardaccess := 5\<rparr>) 0 False (Num False 10) \<and>
   Allowed 2 pc5000 (edge_sample kRoad 50) 0 False (Num False 10) \<and>
   Allowed 2 pc5000
     (edge_sample kRoad 50
        \<lparr>forwardaccess := forwardaccess (edge_sample kRoad 50) OR 2\<rparr>)
     0 False (Num False 10)"
proof -
  have h1: "forwardaccess (edge_sample kRoad 50\<lparr>forwardaccess := 5\<rparr>) AND 2 = 0"
    by (simp add: edge_sample_def)
  have h2: "Allowed 2 pc5000 (edge_sample kRoad 50) 0 False (Num False 10)"
    by (simp add: Allowed_def edge_sample_def pc5000_def fgt_def sval_def)
  show ?thesis
    using h1 h2
      Allowed_access_monotone
        [of "edge_sample kRoad 50\<lparr>forwardaccess := 5\<rparr>" 2 pc5000 0 False "Num False 10"]
      Allowed_access_monotone [of "edge_sample kRoad 50" 2 pc5000 0 False "Num False 10"]
    by blast
qed

text \<open>
  Claim C6.  The exclusion predicate agrees with \<open>Allowed\<close> on access: when the
  predicate returned by \<open>GetFilter\<close> is false on an edge (the edge is kept), the
  forward access mask of the edge contains the pedestrian bit, and \<open>Allowed\<close> on that
  edge is decided by the U-turn flag and the not-through test alone.
\<close>

theorem GetFilter_agrees_with_Allowed:
  assumes "\<not> GetFilter kPedestrianAccess pc edge"
  shows "forwardaccess edge AND kPedestrianAccess \<noteq> 0 \<and>
         Allowed kPedestrianAccess pc' edge restriction uturn dist2dest =
           (\<not> uturn \<and> \<not> (not_thru edge \<and> fgt dist2dest (not_thru_distance pc')))"
  using assms by (simp add: GetFilter_def Allowed_def)

theorem GetFilter_agrees_with_Allowed_witness:
  "\<not> GetFilter 2 pc5000 (edge_sample kFootway 50) \<and>
   forwardaccess (edge_sample kFootway 50) AND 2 \<noteq> 0 \<and>
   Allowed 2 pc5000 (edge_sample kFootway 50) 0 False (Num False 10)"
proof -
  have h: "\<not> GetFilter 2 pc5000 (edge_sample kFootway 50)"
    by (simp add: GetFilter_def edge_sample_def)
  have g: "\<not> fgt (Num False 10) (not_thru_distance pc5000)"
    by (simp add: pc5000_def fgt_def sval_def)
  show ?thesis
    using h g
      GetFilter_agrees_with_Allowed
        [OF h, of pc5000 0 False "Num False 10"]
    by simp
qed

text \<open>
  Claim C3.  For an edge flagged not-through whose forward access mask has the
  pedestrian bit, and a move that is no U-turn: \<open>Allowed\<close> is true when the distance
  to the destination is at most the not-through distance of the strategy, false
  when it is greater, and true at the not-through distance itself.
\<close>

theorem Allowed_not_thru_boundary:
  assumes "not_thru edge" and "forwardaccess edge AND kPedestrianAccess \<noteq> 0"
  shows "(fle dist2dest (not_thru_distance pc) \<longrightarrow>
            Allowed kPedestrianAccess pc edge restriction False dist2dest) \<and>
         (fgt dist2dest (not_thru_distance pc) \<longrightarrow>
            \<not> Allowed kPedestrianAccess pc edge restriction False dist2dest) \<and>
         Allowed kPedestrianAccess pc edge restriction False (not_thru_distance pc)"
  using assms by (auto simp: Allowed_def not_fgt_self dest: fle_not_fgt)

theorem Allowed_not_thru_boundary_witness:
  "not_thru (edge_sample kRoad 50) \<and>
   forwardaccess (edge_sample kRoad 50) AND 2 \<noteq> 0 \<and>
   fle (Num False 4999) (not_thru_distance pc5000) \<and>
   Allowed 2 pc5000 (edge_sample kRoad 50) 0 False (Num False 4999) \<and>
   fgt (Num False (5000 + 1 / 2048)) (not_thru_distance pc5000) \<and>
   is_float (Num False (5000 + 1 / 2048)) \<and>
   \<not> Allowed 2 pc5000 (edge_sample kRoad 50) 0 False (Num False (5000 + 1 / 2048)) \<and>
   Allowed 2 pc5000 (edge_sample kRoad 50) 0 False (Num False 5000)"
proof -
  have h1: "not_thru (edge_sample kRoad 50)"
    by (simp add: edge_sample_def)
  have h2: "forwardaccess (edge_sample kRoad 50) AND 2 \<noteq> 0"
    by (simp add: edge_sample_def)
  have h3: "fle (Num False 4999) (not_thru_distance pc5000)"
    by (simp add: pc5000_def sval_def)
  have h4: "fgt (Num False (5000 + 1 / 2048)) (not_thru_distance pc5000)"
    by (simp add: pc5000_def fgt_def sval_def)
  have h5: "is_float (Num False (5000 + 1 / 2048))"
    by code_simp
  have h6: "not_thru_distance pc5000 = Num False 5000"
    by (simp add: pc5000_def)
  show ?thesis
    using h1 h2 h3 h4 h5 h6
      Allowed_not_thru_boundary [OF h1 h2, of "Num False 4999" pc5000 0]
      Allowed_not_thru_boundary [OF h1 h2, of "Num False (5000 + 1 / 2048)" pc5000 0]
    by simp
qed

section \<open>Construction\<close>

text \<open>
  Claim C2, as stated, fails: a configuration that asks for a negative walking speed
  is accepted, and the strategy built from it walks at the fixed 5.1 km/h.
\<close>

theorem CreatePedestrianCost_accepts_negative_speed:
  "CreatePedestrianCost (DynamicCost_fixed (Num False 5000)) config_negative_speed =
     Inr pc5000"
  by (simp add: CreatePedestrianCost_def PedestrianCost_ctor_def DynamicCost_fixed_def
      pc5000_def)

text \<open>
  Claim C2, amended.  Construction validates nothing.  For every configuration, in
  range or not, \<open>CreatePedestrianCost\<close> fails exactly when the base-class constructor
  fails, and with the same error; when the base-class constructor succeeds, the
  result is the strategy with the inherited not-through distance, walking speed
  \<^verbatim>\<open>5.1f\<close> and favor-walkways factor \<^verbatim>\<open>0.9f\<close>.
\<close>

theorem CreatePedestrianCost_validates_nothing:
  "(CreatePedestrianCost DynamicCost_ctor config = Inl e \<longleftrightarrow>
      DynamicCost_ctor config = Inl e) \<and>
   (DynamicCost_ctor config = Inr base \<longrightarrow>
      CreatePedestrianCost DynamicCost_ctor config =
        Inr \<lparr>not_thru_distance = not_thru_distance base,
             walkingspeed = float_of_rat (51 / 10),
             favorwalkways = float_of_rat (9 / 10)\<rparr>)"
  by (cases "DynamicCost_ctor config")
    (simp_all add: CreatePedestrianCost_def PedestrianCost_ctor_def)

theorem CreatePedestrianCost_validates_nothing_witness:
  "DynamicCost_fixed (Num False 5000) config_negative_speed =
     Inr \<lparr>not_thru_distance = Num False 5000\<rparr> \<and>
   CreatePedestrianCost (DynamicCost_fixed (Num False 5000)) config_negative_speed =
     Inr \<lparr>not_thru_distance = Num False 5000,
          walkingspeed = float_of_rat (51 / 10),
          favorwalkways = float_of_rat (9 / 10)\<rparr> \<and>
   CreatePedestrianCost (DynamicCost_fixed (Num False 5000)) config_negative_speed \<noteq>
     Inl ()"
proof -
  have h: "DynamicCost_fixed (Num False 5000) config_negative_speed =
      Inr \<lparr>not_thru_distance = Num False 5000\<rparr>"
    by (simp add: DynamicCost_fixed_def)
  show ?thesis
    using h
      CreatePedestrianCost_validates_nothing
        [of "DynamicCost_fixed (Num False 5000)" config_negative_speed "()"
            "\<lparr>not_thru_distance = Num False 5000\<rparr>"]
    by simp
qed






section \<open>Facts about rounding\<close>


lemma bitlen_ge1: "0 < p \<Longrightarrow> 1 \<le> bitlen p"
  using bitlen_eq_zero_iff bitlen_nonneg by (metis not_less int_one_le_iff_zero_less order_le_less)

lemma bitlen_powi_lower: assumes "0 < p" shows "2 powi (bitlen p - 1) \<le> (of_int p :: rat)"
proof -
  have "(2::int) ^ nat (bitlen p - 1) \<le> p" using bitlen_bounds[OF assms] by simp
  then have "(of_int ((2::int) ^ nat (bitlen p - 1)) :: rat) \<le> of_int p" by (simp only: of_int_le_iff)
  then show ?thesis using bitlen_ge1[OF assms] by (simp add: power_int_def)
qed

lemma bitlen_powi_upper: assumes "0 < p" shows "(of_int p :: rat) < 2 powi (bitlen p)"
proof -
  have "p < (2::int) ^ nat (bitlen p)" using bitlen_bounds[OF assms] by simp
  then have "(of_int p :: rat) < of_int ((2::int) ^ nat (bitlen p))" by (simp only: of_int_less_iff)
  then show ?thesis using bitlen_ge1[OF assms] by (simp add: power_int_def)
qed

lemma expo_bounds:
  assumes "0 < m"
  shows "2 powi (expo m) \<le> m" and "m < 2 powi (expo m + 1)"
proof -
  obtain p q where pq: "quotient_of m = (p, q)" by (cases "quotient_of m")
  have q: "0 < q" using pq by (rule quotient_of_denom_pos)
  have m: "m = of_int p / of_int q" using pq by (rule quotient_of_div)
  have p: "0 < p" using assms q m by (simp add: zero_less_divide_iff)
  define d where "d = bitlen p - bitlen q"
  have e: "expo m = (if 2 powi d \<le> m then d else d - 1)"
    by (simp add: expo_def pq d_def Let_def)
  have qpos: "(0::rat) < of_int q" using q by simp
  have up: "m < 2 powi (d + 1)"
  proof -
    have "m * of_int q = of_int p" using m qpos by simp
    also have "\<dots> < 2 powi (bitlen p)" by (rule bitlen_powi_upper[OF p])
    also have "\<dots> = 2 powi (d + 1) * 2 powi (bitlen q - 1)"
      by (simp add: d_def flip: power_int_add)
    also have "\<dots> \<le> 2 powi (d + 1) * of_int q"
      using bitlen_powi_lower[OF q] by (simp add: mult_left_mono)
    finally show ?thesis using qpos by simp
  qed
  have lo: "2 powi (d - 1) < m"
  proof -
    have "(2::rat) powi (d - 1) * of_int q < 2 powi (d - 1) * 2 powi (bitlen q)"
      using bitlen_powi_upper[OF q] by (simp add: mult_strict_left_mono)
    also have "\<dots> = 2 powi (bitlen p - 1)"
      by (simp add: d_def flip: power_int_add)
    also have "\<dots> \<le> of_int p" by (rule bitlen_powi_lower[OF p])
    also have "\<dots> = m * of_int q" using m qpos by simp
    finally show ?thesis using qpos by simp
  qed
  show "2 powi (expo m) \<le> m" using lo by (simp add: e)
  show "m < 2 powi (expo m + 1)" using up by (simp add: e)
qed

lemma expo_mono: assumes "0 < x" "x \<le> y" shows "expo x \<le> expo y"
proof -
  have "2 powi (expo x) \<le> x" using assms(1) by (rule expo_bounds)
  also note assms(2)
  also have "y < 2 powi (expo y + 1)" using assms by (intro expo_bounds) simp
  finally have "(2::rat) powi (expo x) < 2 powi (expo y + 1)" .
  then have "expo x < expo y + 1"
    by (metis power_int_increasing not_less one_le_numeral)
  then show ?thesis by simp
qed

lemma ulp_pos: "0 < ulp m"
  by (simp add: ulp_def)

lemma expo_normal:
  assumes "2 powi (- 126) \<le> m"
  shows "- 126 \<le> expo m"
proof -
  have "0 < m" using assms by (rule less_le_trans[rotated]) simp
  then have "m < 2 powi (expo m + 1)" by (rule expo_bounds)
  with assms have "(2::rat) powi (- 126) < 2 powi (expo m + 1)" by simp
  then have "- 126 < expo m + 1"
    by (metis power_int_increasing not_less one_le_numeral)
  then show ?thesis by simp
qed

lemma ulp_ratio:
  assumes "x \<le> y"
  shows "\<exists>k::nat. ulp y = 2 ^ k * ulp x"
proof -
  define gx where "gx = (if x < 2 powi (- 126) then - 149 else expo x - 23)"
  define gy where "gy = (if y < 2 powi (- 126) then - 149 else expo y - 23)"
  have ux: "ulp x = 2 powi gx" and uy: "ulp y = 2 powi gy"
    by (simp_all add: ulp_def gx_def gy_def)
  have "gx \<le> gy"
  proof (cases "x < 2 powi (- 126)")
    case True
    then show ?thesis using expo_normal[of y] by (auto simp: gx_def gy_def)
  next
    case False
    then have "0 < x" by (intro less_le_trans[of 0 "2 powi (- 126)" x]) simp_all
    then have "expo x \<le> expo y" using assms by (rule expo_mono)
    then show ?thesis using False assms by (auto simp: gx_def gy_def)
  qed
  then obtain k :: nat where "gy = gx + int k"
    by (metis zle_iff_zadd)
  then have "ulp y = 2 powi gx * 2 powi (int k)"
    by (simp add: uy power_int_add)
  then show ?thesis by (auto simp: ux)
qed

lemma rne_le: "t \<le> of_int k \<Longrightarrow> rne t \<le> k"
  unfolding rne_def Let_def by (auto; linarith)

lemma rne_nonneg: "0 \<le> t \<Longrightarrow> 0 \<le> rne t"
  unfolding rne_def Let_def by (auto; linarith)

lemma round_mag_nonneg: "0 \<le> x \<Longrightarrow> 0 \<le> round_mag x"
  using ulp_pos[of x] by (simp add: round_mag_def rne_nonneg less_imp_le)

lemma round_mag_zero: "round_mag 0 = 0"
  by (simp add: round_mag_def rne_def)

lemma round_mag_le:
  assumes "x \<le> y" and "is_int (y / ulp y)"
  shows "round_mag x \<le> y"
proof -
  obtain k :: nat where k: "ulp y = 2 ^ k * ulp x"
    using ulp_ratio[OF assms(1)] by blast
  obtain n :: int where n: "y / ulp y = of_int n"
    using assms(2) unfolding is_int_def by metis
  have ux: "0 < ulp x" by (rule ulp_pos)
  have "y = of_int n * ulp y" using n ulp_pos[of y] by (simp add: field_simps)
  then have y: "y = of_int (n * 2 ^ k) * ulp x" by (simp add: k)
  have "x \<le> of_int (n * 2 ^ k) * ulp x" using assms(1) y by simp
  then have "x / ulp x \<le> of_int (n * 2 ^ k)"
    using ux by (simp add: pos_divide_le_eq)
  then have "rne (x / ulp x) \<le> n * 2 ^ k" by (rule rne_le)
  then have "(of_int (rne (x / ulp x)) :: rat) \<le> of_int (n * 2 ^ k)"
    by (simp only: of_int_le_iff)
  then have "of_int (rne (x / ulp x)) * ulp x \<le> of_int (n * 2 ^ k) * ulp x"
    using ux by (simp only: mult_le_cancel_right) simp
  then show ?thesis unfolding round_mag_def using y by simp
qed

lemma nonneg_iff: "is_float x \<Longrightarrow> nonneg x = fle (Num False 0) x"
  by (cases x) (auto simp: sval_def)

lemma nonneg_fle_zero: "nonneg x \<Longrightarrow> fle (Num False 0) x"
  by (cases x) (auto simp: sval_def)

lemma nonneg_fle_refl: "nonneg x \<Longrightarrow> fle x x"
  by (cases x) auto

lemma overflow_threshold_pos: "0 < overflow_threshold"
  by (simp add: overflow_threshold_def)

lemma FLT_MAX_less_threshold: "FLT_MAX < overflow_threshold"
  by (simp add: FLT_MAX_def overflow_threshold_def)

lemma nonneg_fround: "0 \<le> x \<Longrightarrow> (s \<longrightarrow> x = 0) \<Longrightarrow> nonneg (fround s x)"
  using overflow_threshold_pos
  by (auto simp: fround_def round_mag_nonneg round_mag_zero)

lemma nonneg_fmul: "nonneg x \<Longrightarrow> 0 < c \<Longrightarrow> nonneg (fmul x (Num False c))"
  by (cases x) (auto intro!: nonneg_fround)

lemma nonneg_fdiv: "nonneg x \<Longrightarrow> 0 < c \<Longrightarrow> nonneg (fdiv x (Num False c))"
  by (cases x) (auto intro!: nonneg_fround)

lemma fmul_commute: "fmul x y = fmul y x"
proof -
  have "(s \<noteq> t) = (t \<noteq> s)" for s t :: bool by auto
  then show ?thesis
    by (cases x; cases y) (simp_all add: mult.commute)
qed

lemma fmul_le_self:
  assumes "is_float x" and "nonneg x" and "0 < c" and "c \<le> 1"
  shows "fle (fmul (Num False c) x) x"
proof (cases x)
  case (Num s m)
  have m: "0 \<le> m" "m \<le> FLT_MAX" "is_int (m / ulp m)" and sm: "s \<longrightarrow> m = 0"
    using assms(1,2) Num by simp_all
  have cm: "c * m \<le> m" using assms(3,4) m(1) by (simp add: mult_left_le_one_le)
  then have "c * m < overflow_threshold"
    using m(2) FLT_MAX_less_threshold by simp
  then have f: "fmul (Num False c) (Num s m) = Num s (round_mag (c * m))"
    by (simp add: fround_def)
  have le: "round_mag (c * m) \<le> m" using cm m(3) by (rule round_mag_le)
  have ge: "0 \<le> round_mag (c * m)" using assms(3) m(1) by (intro round_mag_nonneg) simp
  have "fle (Num s (round_mag (c * m))) (Num s m)"
    using le ge sm by (auto simp: sval_def)
  then show ?thesis by (simp only: Num f)
next
  case (Infty s)
  then show ?thesis using assms by auto
next
  case NaN
  then show ?thesis using assms by simp
qed


subsection \<open>Rounding is correct rounding\<close>

text \<open>
  Three facts that tie \<open>fround\<close> to the standard: a binary32 magnitude is left as it
  is, the result is at most half a spacing away from the exact value, and the
  result is a binary32 number again.  Hence every operation returns binary32
  numbers on binary32 numbers.
\<close>

lemma rne_of_int: "rne (of_int n) = n"
  by (simp add: rne_def)

lemma rne_ge: "of_int k \<le> t \<Longrightarrow> k \<le> rne t"
  unfolding rne_def Let_def by (auto; linarith)

lemma rne_error: "\<bar>of_int (rne t) - t\<bar> \<le> 1 / 2"
proof -
  have "of_int \<lfloor>t\<rfloor> \<le> t" and "t < of_int \<lfloor>t\<rfloor> + 1"
    by linarith+
  then show ?thesis
    unfolding rne_def Let_def by (auto simp: abs_le_iff)
qed

lemma rne_below_half: "t < of_int k - 1 / 2 \<Longrightarrow> rne t \<le> k - 1"
  unfolding rne_def Let_def by (auto; linarith)

lemma round_mag_fixed:
  assumes "is_int (m / ulp m)"
  shows "round_mag m = m"
proof -
  obtain n :: int where n: "m / ulp m = of_int n"
    using assms unfolding is_int_def by metis
  then have "round_mag m = of_int n * ulp m"
    by (simp add: round_mag_def rne_of_int)
  also have "\<dots> = m" using n ulp_pos [of m] by (simp add: field_simps)
  finally show ?thesis .
qed

lemma round_mag_error: "\<bar>round_mag m - m\<bar> \<le> ulp m / 2"
proof -
  have u: "0 < ulp m" by (rule ulp_pos)
  have "round_mag m - m = (of_int (rne (m / ulp m)) - m / ulp m) * ulp m"
    using u by (simp add: round_mag_def field_simps)
  then have "\<bar>round_mag m - m\<bar> = \<bar>of_int (rne (m / ulp m)) - m / ulp m\<bar> * ulp m"
    using u by (simp add: abs_mult)
  also have "\<dots> \<le> 1 / 2 * ulp m"
    using u rne_error [of "m / ulp m"] by (intro mult_right_mono) simp_all
  finally show ?thesis by simp
qed

lemma expo_unique:
  assumes "2 powi e \<le> m" and "m < 2 powi (e + 1)"
  shows "expo m = e"
proof -
  have m: "0 < m" using assms(1) by (rule less_le_trans [rotated]) simp
  have "(2::rat) powi (expo m) < 2 powi (e + 1)"
    using expo_bounds(1) [OF m] assms(2) by simp
  then have a: "expo m < e + 1"
    by (metis power_int_increasing not_less one_le_numeral)
  have "(2::rat) powi e < 2 powi (expo m + 1)"
    using expo_bounds(2) [OF m] assms(1) by simp
  then have b: "e < expo m + 1"
    by (metis power_int_increasing not_less one_le_numeral)
  from a b show ?thesis by simp
qed


lemma is_int_of_int: "is_int (of_int n)"
  by (simp add: is_int_def)

lemma FLT_MAX_pos: "0 < FLT_MAX"
  by (simp add: FLT_MAX_def)

lemma round_mag_subnormal:
  assumes "0 \<le> m" and "m < 2 powi (- 126)"
  shows "round_mag m \<le> FLT_MAX \<and> is_int (round_mag m / ulp (round_mag m))"
proof -
  define n where "n = rne (m / ulp m)"
  define r where "r = round_mag m"
  have u: "ulp m = 2 powi (- 149)" using assms(2) by (simp add: ulp_def)
  have r: "r = of_int n * 2 powi (- 149)"
    by (simp add: r_def n_def round_mag_def u)
  have "m / ulp m \<le> of_int (2 ^ 23)"
    using assms(2) by (simp add: u field_simps)
  then have n23: "n \<le> 2 ^ 23" unfolding n_def by (rule rne_le)
  then have "(of_int n :: rat) \<le> of_int (2 ^ 23)" by (simp only: of_int_le_iff)
  then have rle: "r \<le> 2 powi (- 126)" by (simp add: r field_simps)
  have ur: "ulp r = 2 powi (- 149)"
  proof (cases "r < 2 powi (- 126)")
    case True
    then show ?thesis by (simp add: ulp_def)
  next
    case False
    then have "2 powi (- 126) \<le> r" by simp
    moreover have "r < 2 powi (- 126 + 1)" using rle by simp
    ultimately have "expo r = - 126" by (rule expo_unique)
    then show ?thesis using False by (simp add: ulp_def)
  qed
  have "r / ulp r = of_int n" unfolding ur by (simp add: r)
  then have "is_int (r / ulp r)" by (simp only: is_int_of_int)
  moreover have "r \<le> FLT_MAX" using rle by (simp add: FLT_MAX_def)
  ultimately show ?thesis by (simp add: r_def)
qed

lemma round_mag_normal:
  assumes "2 powi (- 126) \<le> m" and "m < overflow_threshold"
  shows "round_mag m \<le> FLT_MAX \<and> is_int (round_mag m / ulp (round_mag m))"
proof -
  define e where "e = expo m"
  define u where "u = (2::rat) powi (e - 23)"
  define n where "n = rne (m / u)"
  define r where "r = round_mag m"
  have m0: "0 < m" using assms(1) by (rule less_le_trans [rotated]) simp
  have e126: "- 126 \<le> e" unfolding e_def using assms(1) by (rule expo_normal)
  have lo: "2 powi e \<le> m" and hi: "m < 2 powi (e + 1)"
    unfolding e_def using m0 by (rule expo_bounds)+
  have upos: "0 < u" by (simp add: u_def)
  have um: "ulp m = u" using assms(1) by (simp add: ulp_def u_def e_def)
  have r: "r = of_int n * u" by (simp add: r_def n_def round_mag_def um)
  have pe: "2 powi e = 2 ^ 23 * u"
  proof -
    have "(2::rat) powi e = 2 powi (e - 23 + 23)" by simp
    also have "\<dots> = 2 powi (e - 23) * 2 powi 23" by (subst power_int_add) simp_all
    finally show ?thesis by (simp add: u_def)
  qed
  have pe1: "2 powi (e + 1) = 2 ^ 24 * u"
  proof -
    have "(2::rat) powi (e + 1) = 2 powi e * 2" by (subst power_int_add) simp_all
    then show ?thesis by (simp add: pe)
  qed
  have "of_int (2 ^ 23) \<le> m / u" using lo upos by (simp add: pe pos_le_divide_eq)
  then have nlo: "2 ^ 23 \<le> n" unfolding n_def by (rule rne_ge)
  have "m / u \<le> of_int (2 ^ 24)" using hi upos by (simp add: pe1 pos_divide_le_eq)
  then have nhi: "n \<le> 2 ^ 24" unfolding n_def by (rule rne_le)
  have "(of_int (2 ^ 23) :: rat) \<le> of_int n" using nlo by (simp only: of_int_le_iff)
  then have rlo: "2 powi e \<le> r" using upos by (simp add: r pe)
  have "(of_int n :: rat) \<le> of_int (2 ^ 24)" using nhi by (simp only: of_int_le_iff)
  then have rhi: "r \<le> 2 powi (e + 1)" using upos by (simp add: r pe1)
  have "(2::rat) powi (- 126) \<le> 2 powi e"
    using e126 by (intro power_int_increasing) simp_all
  then have rnorm: "\<not> r < 2 powi (- 126)" using rlo by simp
  have grid: "is_int (r / ulp r)"
  proof (cases "r < 2 powi (e + 1)")
    case True
    with rlo have "expo r = e" by (rule expo_unique)
    then have ur: "ulp r = u" using rnorm by (simp add: ulp_def u_def)
    have "r / ulp r = of_int n" unfolding ur using upos by (simp add: r)
    then show ?thesis by (simp only: is_int_of_int)
  next
    case False
    then have req: "r = 2 powi (e + 1)" using rhi by simp
    have "(2::rat) powi (e + 1) < 2 powi (e + 1 + 1)"
      by (intro power_int_strict_increasing) simp_all
    then have "expo r = e + 1"
      by (intro expo_unique) (simp_all add: req)
    then have "ulp r = 2 powi (e + 1 - 23)" using rnorm by (simp add: ulp_def)
    also have "2 powi (e + 1 - 23) = 2 * u"
    proof -
      have "(2::rat) powi (e + 1 - 23) = 2 powi (e - 23 + 1)" by (simp add: algebra_simps)
      also have "\<dots> = 2 powi (e - 23) * 2" by (subst power_int_add) simp_all
      finally show ?thesis by (simp add: u_def)
    qed
    finally have ur: "ulp r = 2 * u" .
    have "r / ulp r = of_int (2 ^ 23)" unfolding ur using upos by (simp add: req pe1)
    then show ?thesis by (simp only: is_int_of_int)
  qed
  have bound: "r \<le> FLT_MAX"
  proof (cases "e \<le> 126")
    case True
    then have "(2::rat) powi (e + 1) \<le> 2 powi 127"
      by (intro power_int_increasing) simp_all
    with rhi show ?thesis by (simp add: FLT_MAX_def)
  next
    case False
    have "(2::rat) powi e < 2 powi 128"
      using lo assms(2) by (simp add: overflow_threshold_def)
    then have "e < 128" by (metis power_int_increasing not_less one_le_numeral)
    with False have e: "e = 127" by simp
    have u104: "u = 2 ^ 104" by (simp add: u_def e)
    have "m / u < of_int (2 ^ 24) - 1 / 2"
      using assms(2) by (simp add: u104 overflow_threshold_def field_simps)
    then have "n \<le> 2 ^ 24 - 1" unfolding n_def by (rule rne_below_half)
    then have "(of_int n :: rat) \<le> of_int (2 ^ 24 - 1)" by (simp only: of_int_le_iff)
    then show ?thesis by (simp add: r u104 FLT_MAX_def)
  qed
  from grid bound show ?thesis by (simp add: r_def)
qed

lemma is_float_fround:
  assumes "0 \<le> m"
  shows "is_float (fround s m)"
proof (cases "overflow_threshold \<le> m")
  case True
  then show ?thesis by (simp add: fround_def)
next
  case False
  then have m: "m < overflow_threshold" by simp
  have "round_mag m \<le> FLT_MAX \<and> is_int (round_mag m / ulp (round_mag m))"
  proof (cases "m < 2 powi (- 126)")
    case True
    with assms show ?thesis by (rule round_mag_subnormal)
  next
    case False
    then have "2 powi (- 126) \<le> m" by simp
    then show ?thesis using m by (rule round_mag_normal)
  qed
  then show ?thesis using False assms by (simp add: fround_def round_mag_nonneg)
qed


lemma is_float_float_of_rat: "is_float (float_of_rat r)"
  by (simp add: float_of_rat_def is_float_fround)

lemma is_float_fmul:
  assumes "is_float x" and "is_float y"
  shows "is_float (fmul x y)"
  using assms by (cases x; cases y) (simp_all add: is_float_fround)

lemma is_float_fdiv:
  assumes "is_float x" and "is_float y"
  shows "is_float (fdiv x y)"
proof -
  have "is_float (Num s 0)" for s
    by (simp add: is_int_def FLT_MAX_def)
  then show ?thesis
    using assms by (cases x; cases y) (simp_all add: is_float_fround)
qed

lemma operations_return_floats:
  assumes "is_float (length_e edge)"
    and "is_float (walkingspeed pc)" and "is_float (favorwalkways pc)"
  shows "is_float (Get pc edge)" and "is_float (Seconds pc edge)"
    and "is_float (AStarCostFactor pc)" and "is_float (UnitSize pc)"
  using assms
  by (simp_all add: Get_def Seconds_def AStarCostFactor_def UnitSize_def
      is_float_fmul is_float_fdiv is_float_float_of_rat del: is_float.simps)

section \<open>Cost, time and the heuristic factor\<close>

text \<open>The literals of the source, and the members the constructor sets.\<close>

lemma lit_0_9: "float_of_rat (9 / 10) = Num False (15099494 / 16777216)"
  by code_simp

lemma lit_5_1: "float_of_rat (51 / 10) = Num False (10695475 / 2097152)"
  by code_simp

lemma lit_3_6: "float_of_rat (36 / 10) = Num False (15099494 / 4194304)"
  by code_simp

lemma lit_1: "float_of_rat 1 = Num False 1"
  by code_simp

lemma lit_2: "float_of_rat 2 = Num False 2"
  by code_simp

lemma created_members:
  assumes "CreatePedestrianCost DynamicCost_ctor config = Inr pc"
  shows "walkingspeed pc = float_of_rat (51 / 10)"
    and "favorwalkways pc = float_of_rat (9 / 10)"
  using assms
  by (cases "DynamicCost_ctor config";
      auto simp: CreatePedestrianCost_def PedestrianCost_ctor_def)+

lemma AStarCostFactor_created:
  assumes "favorwalkways pc = float_of_rat (9 / 10)"
  shows "AStarCostFactor pc = float_of_rat (9 / 10)"
  by (simp add: AStarCostFactor_def assms lit_0_9 lit_1 sval_def)


lemma created_pc5000:
  "CreatePedestrianCost (DynamicCost_fixed (Num False 5000)) config_empty = Inr pc5000"
  by (simp add: CreatePedestrianCost_def PedestrianCost_ctor_def DynamicCost_fixed_def
      pc5000_def)

lemma edge_sample_members:
  "use (edge_sample u len) = u" "length_e (edge_sample u len) = Num False len"
  by (simp_all add: edge_sample_def)

text \<open>
  Claim C1.  The heuristic factor is admissible.  For the strategy the factory
  returns and every edge whose length is a number at least zero, the factor
  multiplied by the length of the edge (the \<^verbatim>\<open>float\<close> product, as the program forms it)
  is at most \<open>Get\<close> of the edge.  The factor is \<^verbatim>\<open>0.9f\<close>; on a footway of length 100
  \<open>Get\<close> returns 90, and the factor times 100 is at most 90.
\<close>

theorem AStarCostFactor_admissible:
  assumes "CreatePedestrianCost DynamicCost_ctor config = Inr pc"
    and "is_float (length_e edge)"
    and "fle (Num False 0) (length_e edge)"
  shows "fle (fmul (AStarCostFactor pc) (length_e edge)) (Get pc edge) \<and>
         AStarCostFactor pc = float_of_rat (9 / 10) \<and>
         (use edge = kFootway \<and> length_e edge = Num False 100 \<longrightarrow>
            Get pc edge = Num False 90 \<and>
            fle (fmul (float_of_rat (9 / 10)) (Num False 100)) (Num False 90))"
proof -
  have fw: "favorwalkways pc = float_of_rat (9 / 10)"
    using assms(1) by (rule created_members)
  have a: "AStarCostFactor pc = float_of_rat (9 / 10)"
    using fw by (rule AStarCostFactor_created)
  have nn: "nonneg (length_e edge)"
    using assms(2,3) by (simp add: nonneg_iff)
  have adm: "fle (fmul (AStarCostFactor pc) (length_e edge)) (Get pc edge)"
  proof (cases "use edge = kFootway")
    case True
    have "nonneg (fmul (length_e edge) (float_of_rat (9 / 10)))"
      unfolding lit_0_9 using nn by (rule nonneg_fmul) simp
    then have "fle (fmul (length_e edge) (float_of_rat (9 / 10)))
        (fmul (length_e edge) (float_of_rat (9 / 10)))"
      by (rule nonneg_fle_refl)
    then show ?thesis
      by (simp add: Get_def True a fw fmul_commute [of "float_of_rat (9 / 10)"])
  next
    case False
    have "fle (fmul (float_of_rat (9 / 10)) (length_e edge)) (length_e edge)"
      unfolding lit_0_9 using assms(2) nn by (rule fmul_le_self) simp_all
    then show ?thesis by (simp add: Get_def False a)
  qed
  have ninety: "fmul (Num False 100) (float_of_rat (9 / 10)) = Num False 90"
    by code_simp
  have ninety': "fle (fmul (float_of_rat (9 / 10)) (Num False 100)) (Num False 90)"
    by code_simp
  show ?thesis
    using adm a ninety ninety' by (simp add: Get_def fw)
qed

theorem AStarCostFactor_admissible_witness:
  "CreatePedestrianCost (DynamicCost_fixed (Num False 5000)) config_empty = Inr pc5000 \<and>
   is_float (length_e (edge_sample kFootway 100)) \<and>
   fle (Num False 0) (length_e (edge_sample kFootway 100)) \<and>
   fle (fmul (AStarCostFactor pc5000) (length_e (edge_sample kFootway 100)))
     (Get pc5000 (edge_sample kFootway 100)) \<and>
   AStarCostFactor pc5000 = float_of_rat (9 / 10) \<and>
   Get pc5000 (edge_sample kFootway 100) = Num False 90"
proof -
  have h2: "is_float (length_e (edge_sample kFootway 100))"
    unfolding edge_sample_members by code_simp
  have h3: "fle (Num False 0) (length_e (edge_sample kFootway 100))"
    unfolding edge_sample_members by (simp add: sval_def)
  show ?thesis
    using created_pc5000 h2 h3 edge_sample_members [of kFootway 100]
      AStarCostFactor_admissible [OF created_pc5000 h2 h3]
    by blast
qed

text \<open>
  The product in the admissibility statement is the rounded one.  On a footway of
  length 3 the rounding of \<open>Get\<close> goes downwards, and the unrounded product of the
  factor and the length lies above \<open>Get\<close> by less than one spacing.
\<close>

lemma unrounded_product_above_Get:
  "AStarCostFactor pc5000 = Num False (15099494 / 16777216) \<and>
   Get pc5000 (edge_sample kFootway 3) = Num False (2831155 / 1048576) \<and>
   (2831155 / 1048576 :: rat) < 15099494 / 16777216 * 3 \<and>
   15099494 / 16777216 * 3 - 2831155 / 1048576 < ulp (2831155 / 1048576 :: rat)"
proof -
  have "Get pc5000 (edge_sample kFootway 3) = fmul (Num False 3) (float_of_rat (9 / 10))"
    by (simp add: Get_def pc5000_def edge_sample_def)
  also have "\<dots> = Num False (2831155 / 1048576)"
    by code_simp
  finally have g: "Get pc5000 (edge_sample kFootway 3) = Num False (2831155 / 1048576)" .
  have a: "AStarCostFactor pc5000 = Num False (15099494 / 16777216)"
    by (simp add: AStarCostFactor_created pc5000_def lit_0_9)
  have u: "15099494 / 16777216 * 3 - 2831155 / 1048576 < ulp (2831155 / 1048576 :: rat)"
    by code_simp
  show ?thesis using g a u by simp
qed

text \<open>
  Claim C9.  For the strategy the factory returns and every edge whose length is a
  number at least zero, \<open>Get\<close> and \<open>Seconds\<close> of the edge are at least zero; \<open>UnitSize\<close>
  returns 2, which is greater than zero.
\<close>

theorem costs_nonnegative:
  assumes "CreatePedestrianCost DynamicCost_ctor config = Inr pc"
    and "is_float (length_e edge)"
    and "fle (Num False 0) (length_e edge)"
  shows "fle (Num False 0) (Get pc edge) \<and>
         fle (Num False 0) (Seconds pc edge) \<and>
         UnitSize pc = Num False 2 \<and>
         flt (Num False 0) (UnitSize pc)"
proof -
  have fw: "favorwalkways pc = float_of_rat (9 / 10)"
    and ws: "walkingspeed pc = float_of_rat (51 / 10)"
    using assms(1) by (rule created_members)+
  have nn: "nonneg (length_e edge)"
    using assms(2,3) by (simp add: nonneg_iff)
  have "nonneg (fmul (length_e edge) (float_of_rat (9 / 10)))"
    unfolding lit_0_9 using nn by (rule nonneg_fmul) simp
  then have "nonneg (Get pc edge)"
    using nn by (simp add: Get_def fw)
  then have g: "fle (Num False 0) (Get pc edge)"
    by (rule nonneg_fle_zero)
  have "nonneg (fmul (length_e edge) (float_of_rat (36 / 10)))"
    unfolding lit_3_6 using nn by (rule nonneg_fmul) simp
  then have "nonneg (fdiv (fmul (length_e edge) (float_of_rat (36 / 10)))
      (float_of_rat (51 / 10)))"
    unfolding lit_5_1 by (rule nonneg_fdiv) simp
  then have "nonneg (Seconds pc edge)"
    by (simp add: Seconds_def ws)
  then have s: "fle (Num False 0) (Seconds pc edge)"
    by (rule nonneg_fle_zero)
  show ?thesis
    using g s by (simp add: UnitSize_def lit_2 sval_def)
qed

theorem costs_nonnegative_witness:
  "CreatePedestrianCost (DynamicCost_fixed (Num False 5000)) config_empty = Inr pc5000 \<and>
   is_float (length_e (edge_sample kFootway 50)) \<and>
   fle (Num False 0) (length_e (edge_sample kFootway 50)) \<and>
   fle (Num False 0) (Get pc5000 (edge_sample kFootway 50)) \<and>
   fle (Num False 0) (Seconds pc5000 (edge_sample kFootway 50)) \<and>
   UnitSize pc5000 = Num False 2 \<and>
   flt (Num False 0) (UnitSize pc5000)"
proof -
  have h2: "is_float (length_e (edge_sample kFootway 50))"
    unfolding edge_sample_members by code_simp
  have h3: "fle (Num False 0) (length_e (edge_sample kFootway 50))"
    unfolding edge_sample_members by (simp add: sval_def)
  show ?thesis
    using created_pc5000 h2 h3 costs_nonnegative [OF created_pc5000 h2 h3]
    by blast
qed

text \<open>
  Claim C8.  For the strategy the factory returns and an edge of length 50: \<open>Get\<close>
  returns 45 on a footway and 50 on a road, and \<open>Seconds\<close> returns the \<^verbatim>\<open>float\<close> value
  of \<^verbatim>\<open>(50 * 3.6f) / 5.1f\<close>, which is 9252141 / 262144, about 35.29 and less than a
  millionth away from 50 times 3.6 over 5.1.
\<close>

theorem default_costs_of_length_50:
  assumes "CreatePedestrianCost DynamicCost_ctor config = Inr pc"
    and "length_e edge = Num False 50"
  shows "(use edge = kFootway \<longrightarrow> Get pc edge = Num False 45) \<and>
         (use edge = kRoad \<longrightarrow> Get pc edge = Num False 50) \<and>
         Seconds pc edge =
           fdiv (fmul (Num False 50) (float_of_rat (36 / 10))) (float_of_rat (51 / 10)) \<and>
         Seconds pc edge = Num False (9252141 / 262144) \<and>
         \<bar>9252141 / 262144 - 50 * (36 / 10) / (51 / 10)\<bar> < (1 / 1000000 :: rat)"
proof -
  have fw: "favorwalkways pc = float_of_rat (9 / 10)"
    and ws: "walkingspeed pc = float_of_rat (51 / 10)"
    using assms(1) by (rule created_members)+
  have c45: "fmul (Num False 50) (float_of_rat (9 / 10)) = Num False 45"
    by code_simp
  have sec: "fdiv (fmul (Num False 50) (float_of_rat (36 / 10))) (float_of_rat (51 / 10)) =
      Num False (9252141 / 262144)"
    by code_simp
  have "Seconds pc edge =
      fdiv (fmul (Num False 50) (float_of_rat (36 / 10))) (float_of_rat (51 / 10))"
    by (simp add: Seconds_def ws assms(2))
  then show ?thesis
    using c45 sec by (simp add: Get_def fw assms(2))
qed

theorem default_costs_of_length_50_witness:
  "CreatePedestrianCost (DynamicCost_fixed (Num False 5000)) config_empty = Inr pc5000 \<and>
   length_e (edge_sample kFootway 50) = Num False 50 \<and>
   length_e (edge_sample kRoad 50) = Num False 50 \<and>
   Get pc5000 (edge_sample kFootway 50) = Num False 45 \<and>
   Get pc5000 (edge_sample kRoad 50) = Num False 50 \<and>
   Seconds pc5000 (edge_sample kFootway 50) = Num False (9252141 / 262144)"
  using created_pc5000 edge_sample_members [of kFootway 50]
    edge_sample_members [of kRoad 50]
    default_costs_of_length_50
      [OF created_pc5000 edge_sample_members(2) [of kFootway 50]]
    default_costs_of_length_50
      [OF created_pc5000 edge_sample_members(2) [of kRoad 50]]
  by blast

end
